theory Spec2Isabelle
  imports Main "HOL-Library.Word"
begin

section \<open>Python values used by the codec\<close>

text \<open>
  Bytes objects are lists of 8-bit words.  A Python \<open>str\<close> is the list of its code
  points; a tag name is optional because unnamed list elements carry \<open>None\<close>.
  Python integers are unbounded and are modelled by \<open>int\<close>.
\<close>

type_synonym byte = "8 word"
type_synonym pystr = "nat list"

text \<open>The exceptions the code can raise, one constructor per exception class.\<close>

datatype error =
    EOFError
  | NotImplementedError
  | ValueError
  | TypeError
  | IndexError
  | StructError
  | UnicodeDecodeError
  | UnicodeEncodeError
  | AttributeError
  | KeyError
  | OverflowError

text \<open>
  Python slicing \<open>xs[a:b]\<close>: a negative bound counts from the end, and every bound is
  clamped to the range of the sequence; an empty range gives the empty sequence.
\<close>

definition slice_bound :: "nat \<Rightarrow> int \<Rightarrow> nat" where
  "slice_bound n i = (if i < 0 then nat (max 0 (i + int n)) else min (nat i) n)"

definition py_slice :: "'a list \<Rightarrow> int \<Rightarrow> int \<Rightarrow> 'a list" where
  "py_slice xs a b =
     take (slice_bound (length xs) b - slice_bound (length xs) a)
          (drop (slice_bound (length xs) a) xs)"

section \<open>stream.py: the byte stream reader\<close>

record stream =
  data :: "byte list"
  index :: int

definition Stream :: "byte list \<Rightarrow> stream" where
  "Stream d = \<lparr>data = d, index = 0\<rparr>"

text \<open>
  A failing call leaves the stream object as it is at the moment of the raise, so an
  error result carries that stream: \<open>Inl (e, s)\<close>.
\<close>

type_synonym 'a res = "(error \<times> stream) + ('a \<times> stream)"

definition read :: "stream \<Rightarrow> int \<Rightarrow> (byte list) res" where
  "read s sz =
     (if index s + sz > int (length (data s)) then Inl (EOFError, s)
      else Inr (py_slice (data s) (index s) (index s + sz),
                s\<lparr>index := index s + sz\<rparr>))"

definition peek :: "stream \<Rightarrow> int \<Rightarrow> (byte list) res" where
  "peek s sz =
     (if index s + sz > int (length (data s)) then Inl (EOFError, s)
      else Inr (py_slice (data s) (index s) (index s + sz), s))"

definition alive :: "stream \<Rightarrow> bool" where
  "alive s = (index s < int (length (data s)))"

section \<open>struct and UTF-8\<close>

text \<open>
  \<open>struct.unpack\<close> with the formats \<open>>b\<close>, \<open>>h\<close>, \<open>>i\<close>, \<open>>q\<close>: the buffer must have
  exactly the width of the format, and is read as a big-endian two's complement number.
  \<open>struct.pack\<close> raises when the value does not fit the width.
\<close>

definition be_uint :: "byte list \<Rightarrow> int" where
  "be_uint bs = foldl (\<lambda>a b. a * 256 + uint b) 0 bs"

definition unpack_int :: "nat \<Rightarrow> byte list \<Rightarrow> error + int" where
  "unpack_int w bs =
     (if length bs \<noteq> w then Inl StructError
      else if be_uint bs \<ge> 2 ^ (8 * w - 1) then Inr (be_uint bs - 2 ^ (8 * w))
      else Inr (be_uint bs))"

fun be_bytes :: "nat \<Rightarrow> int \<Rightarrow> byte list" where
  "be_bytes 0 v = []"
| "be_bytes (Suc k) v = be_bytes k (v div 256) @ [word_of_int (v mod 256)]"

definition pack_int :: "nat \<Rightarrow> int \<Rightarrow> error + byte list" where
  "pack_int w v =
     (if v < - (2 ^ (8 * w - 1)) then Inl StructError
      else if v \<ge> 2 ^ (8 * w - 1) then Inl StructError
      else Inr (be_bytes w (v mod 2 ^ (8 * w))))"

text \<open>
  A Python \<open>float\<close> is an IEEE-754 double, kept here as its 64 bits.  The format \<open>>f\<close>
  goes through the C type \<open>float\<close>: \<open>struct.unpack\<close> widens the 32 wire bits to a
  double, and \<open>struct.pack\<close> rounds the double to the nearest \<open>float\<close> (ties to even)
  and raises \<open>OverflowError\<close> when a finite double rounds to infinity.  Both conversions
  keep the sign and the leading payload bits of a NaN and set its quiet bit, so a
  signalling NaN comes out quiet, as the conversion instructions of the usual hardware
  do.  The format \<open>>d\<close> copies the 64 bits.
\<close>

definition bitlen :: "int \<Rightarrow> nat" where
  "bitlen m = length (filter (\<lambda>k. 2 ^ k \<le> m) [0..<23])"

definition round_shift :: "int \<Rightarrow> nat \<Rightarrow> int" where
  "round_shift m k =
     (if k = 0 then m
      else if m mod 2 ^ k > 2 ^ (k - 1) then m div 2 ^ k + 1
      else if m mod 2 ^ k = 2 ^ (k - 1) \<and> (m div 2 ^ k) mod 2 = 1 then m div 2 ^ k + 1
      else m div 2 ^ k)"

definition float_to_double :: "32 word \<Rightarrow> 64 word" where
  "float_to_double w =
     (let sg = uint w div 2 ^ 31; e = uint w div 2 ^ 23 mod 256; m = uint w mod 2 ^ 23 in
      if e = 255 then
        (if m = 0 then word_of_int (sg * 2 ^ 63 + 2047 * 2 ^ 52)
         else if m < 2 ^ 22
           then word_of_int (sg * 2 ^ 63 + 2047 * 2 ^ 52 + 2 ^ 51 + m * 2 ^ 29)
         else word_of_int (sg * 2 ^ 63 + 2047 * 2 ^ 52 + m * 2 ^ 29))
      else if e = 0 then
        (if m = 0 then word_of_int (sg * 2 ^ 63)
         else word_of_int (sg * 2 ^ 63 + (int (bitlen m) + 873) * 2 ^ 52
                           + (m - 2 ^ (bitlen m - 1)) * 2 ^ (53 - bitlen m)))
      else word_of_int (sg * 2 ^ 63 + (e + 896) * 2 ^ 52 + m * 2 ^ 29))"

definition double_to_float :: "64 word \<Rightarrow> 32 word option" where
  "double_to_float w =
     (let sg = uint w div 2 ^ 63; e = uint w div 2 ^ 52 mod 2048; m = uint w mod 2 ^ 52 in
      if e = 2047 then
        (if m = 0 then Some (word_of_int (sg * 2 ^ 31 + 255 * 2 ^ 23))
         else if m div 2 ^ 29 < 2 ^ 22
           then Some (word_of_int (sg * 2 ^ 31 + 255 * 2 ^ 23 + 2 ^ 22 + m div 2 ^ 29))
         else Some (word_of_int (sg * 2 ^ 31 + 255 * 2 ^ 23 + m div 2 ^ 29)))
      else if e = 0 then Some (word_of_int (sg * 2 ^ 31))
      else if e \<ge> 897 then
        (if (e - 897) * 2 ^ 23 + round_shift (2 ^ 52 + m) 29 \<ge> 255 * 2 ^ 23 then None
         else Some (word_of_int
                      (sg * 2 ^ 31 + (e - 897) * 2 ^ 23 + round_shift (2 ^ 52 + m) 29)))
      else Some (word_of_int (sg * 2 ^ 31 + round_shift (2 ^ 52 + m) (nat (926 - e)))))"

text \<open>
  \<open>bytes.decode("utf-8")\<close> in strict mode: shortest-form sequences only, no surrogates,
  nothing above U+10FFFF.  \<open>None\<close> stands for \<open>UnicodeDecodeError\<close>.
\<close>

definition cont :: "byte \<Rightarrow> bool" where
  "cont b = (128 \<le> unat b \<and> unat b \<le> 191)"

fun utf8_decode :: "byte list \<Rightarrow> pystr option" where
  "utf8_decode [] = Some []"
| "utf8_decode (b0 # bs) =
     (if unat b0 < 128 then map_option ((#) (unat b0)) (utf8_decode bs)
      else if 194 \<le> unat b0 \<and> unat b0 \<le> 223 then
        (case bs of
           b1 # r \<Rightarrow>
             if cont b1
             then map_option ((#) ((unat b0 - 192) * 64 + (unat b1 - 128))) (utf8_decode r)
             else None
         | _ \<Rightarrow> None)
      else if 224 \<le> unat b0 \<and> unat b0 \<le> 239 then
        (case bs of
           b1 # b2 # r \<Rightarrow>
             if cont b1 \<and> cont b2
                \<and> (if unat b0 = 224 then 160 \<le> unat b1 else True)
                \<and> (if unat b0 = 237 then unat b1 \<le> 159 else True)
             then map_option
                    ((#) ((unat b0 - 224) * 4096 + (unat b1 - 128) * 64 + (unat b2 - 128)))
                    (utf8_decode r)
             else None
         | _ \<Rightarrow> None)
      else if 240 \<le> unat b0 \<and> unat b0 \<le> 244 then
        (case bs of
           b1 # b2 # b3 # r \<Rightarrow>
             if cont b1 \<and> cont b2 \<and> cont b3
                \<and> (if unat b0 = 240 then 144 \<le> unat b1 else True)
                \<and> (if unat b0 = 244 then unat b1 \<le> 143 else True)
             then map_option
                    ((#) ((unat b0 - 240) * 262144 + (unat b1 - 128) * 4096
                          + (unat b2 - 128) * 64 + (unat b3 - 128)))
                    (utf8_decode r)
             else None
         | _ \<Rightarrow> None)
      else None)"

text \<open>
  \<open>str.encode("utf-8")\<close>: a surrogate code point raises \<open>UnicodeEncodeError\<close>
  (\<open>None\<close>); code points above U+10FFFF do not exist in a Python \<open>str\<close> and are
  refused the same way.
\<close>

definition utf8_char :: "nat \<Rightarrow> byte list option" where
  "utf8_char c =
     (if c < 128 then Some [of_nat c]
      else if c < 2048 then Some [of_nat (192 + c div 64), of_nat (128 + c mod 64)]
      else if 55296 \<le> c \<and> c \<le> 57343 then None
      else if c < 65536 then
        Some [of_nat (224 + c div 4096), of_nat (128 + c div 64 mod 64),
              of_nat (128 + c mod 64)]
      else if c < 1114112 then
        Some [of_nat (240 + c div 262144), of_nat (128 + c div 4096 mod 64),
              of_nat (128 + c div 64 mod 64), of_nat (128 + c mod 64)]
      else None)"

fun utf8_encode :: "pystr \<Rightarrow> byte list option" where
  "utf8_encode [] = Some []"
| "utf8_encode (c # cs) =
     (case utf8_char c of
        None \<Rightarrow> None
      | Some bs \<Rightarrow> map_option ((@) bs) (utf8_encode cs))"

section \<open>nbt\_tag.py: reading\<close>

text \<open>Sequencing of calls on one stream: the first raise ends the computation.\<close>

definition bnd :: "'a res \<Rightarrow> ('a \<Rightarrow> stream \<Rightarrow> 'b res) \<Rightarrow> 'b res" where
  "bnd m f = (case m of Inl e \<Rightarrow> Inl e | Inr (x, s) \<Rightarrow> f x s)"

text \<open>A stream-free computation that raises does so with the stream as it stands.\<close>

definition lift :: "error + 'a \<Rightarrow> stream \<Rightarrow> 'a res" where
  "lift r s = (case r of Inl e \<Rightarrow> Inl (e, s) | Inr x \<Rightarrow> Inr (x, s))"

definition decode_utf8 :: "byte list \<Rightarrow> error + pystr" where
  "decode_utf8 bs = (case utf8_decode bs of None \<Rightarrow> Inl UnicodeDecodeError | Some t \<Rightarrow> Inr t)"

text \<open>
  \<^verbatim>\<open>length = struct.unpack(">h", stream.read(2))[0]\<close>
  \<^verbatim>\<open>return stream.read(length).decode("utf-8")\<close>
\<close>

definition read_string :: "stream \<Rightarrow> pystr res" where
  "read_string s =
     bnd (read s 2) (\<lambda>bs s1.
     bnd (lift (unpack_int 2 bs) s1) (\<lambda>len s2.
     bnd (read s2 len) (\<lambda>raw s3.
     lift (decode_utf8 raw) s3)))"

subsection \<open>The tag classes and the registry\<close>

text \<open>
  One constructor per subclass of \<open>Tag\<close>.  The payload of a Float or Double is a
  Python \<open>float\<close>, a double given by its 64 bits.
\<close>

datatype tag =
    TagEnd
  | TagByte "pystr option" int
  | TagShort "pystr option" int
  | TagInt "pystr option" int
  | TagLong "pystr option" int
  | TagFloat "pystr option" "64 word"
  | TagDouble "pystr option" "64 word"
  | TagByteArray "pystr option" "int list"
  | TagString "pystr option" pystr
  | TagList "pystr option" "tag list"
  | TagCompound "pystr option" "tag list"
  | TagIntArray "pystr option" "int list"
  | TagLongArray "pystr option" "int list"

text \<open>The classes themselves, as the values of \<open>TAG_MAP\<close> and of \<open>__class__\<close>.\<close>

datatype tag_type =
    T_End | T_Byte | T_Short | T_Int | T_Long | T_Float | T_Double
  | T_ByteArray | T_String | T_List | T_Compound | T_IntArray | T_LongArray

fun class_of :: "tag \<Rightarrow> tag_type" where
  "class_of TagEnd = T_End"
| "class_of (TagByte n v) = T_Byte"
| "class_of (TagShort n v) = T_Short"
| "class_of (TagInt n v) = T_Int"
| "class_of (TagLong n v) = T_Long"
| "class_of (TagFloat n v) = T_Float"
| "class_of (TagDouble n v) = T_Double"
| "class_of (TagByteArray n v) = T_ByteArray"
| "class_of (TagString n v) = T_String"
| "class_of (TagList n v) = T_List"
| "class_of (TagCompound n v) = T_Compound"
| "class_of (TagIntArray n v) = T_IntArray"
| "class_of (TagLongArray n v) = T_LongArray"

fun TAG_ID :: "tag_type \<Rightarrow> nat" where
  "TAG_ID T_End = 0"
| "TAG_ID T_Byte = 1"
| "TAG_ID T_Short = 2"
| "TAG_ID T_Int = 3"
| "TAG_ID T_Long = 4"
| "TAG_ID T_Float = 5"
| "TAG_ID T_Double = 6"
| "TAG_ID T_ByteArray = 7"
| "TAG_ID T_String = 8"
| "TAG_ID T_List = 9"
| "TAG_ID T_Compound = 10"
| "TAG_ID T_IntArray = 11"
| "TAG_ID T_LongArray = 12"

definition TAG_MAP :: "nat \<Rightarrow> tag_type option" where
  "TAG_MAP =
     map_of [(0, T_End), (1, T_Byte), (2, T_Short), (3, T_Int), (4, T_Long), (5, T_Float),
             (6, T_Double), (7, T_ByteArray), (8, T_String), (9, T_List),
             (10, T_Compound), (11, T_IntArray), (12, T_LongArray)]"

subsection \<open>Readers of the scalar, string and array classes\<close>

text \<open>
  \<^verbatim>\<open>name = read_string(stream) if named else None\<close>; \<open>TagByte.read\<close> uses \<open>""\<close> in
  place of \<open>None\<close>.
\<close>

definition read_name :: "bool \<Rightarrow> pystr option \<Rightarrow> stream \<Rightarrow> (pystr option) res" where
  "read_name named dflt s =
     (if named then bnd (read_string s) (\<lambda>n s1. Inr (Some n, s1)) else Inr (dflt, s))"

definition read_int :: "nat \<Rightarrow> stream \<Rightarrow> int res" where
  "read_int w s = bnd (read s (int w)) (\<lambda>bs s1. lift (unpack_int w bs) s1)"

definition unpack_bits :: "nat \<Rightarrow> byte list \<Rightarrow> error + int" where
  "unpack_bits w bs = (if length bs \<noteq> w then Inl StructError else Inr (be_uint bs))"

definition TagByte_read :: "stream \<Rightarrow> bool \<Rightarrow> tag res" where
  "TagByte_read s named =
     bnd (read_name named (Some []) s) (\<lambda>name s1.
     bnd (read_int 1 s1) (\<lambda>payload s2. Inr (TagByte name payload, s2)))"

definition TagShort_read :: "stream \<Rightarrow> bool \<Rightarrow> tag res" where
  "TagShort_read s named =
     bnd (read_name named None s) (\<lambda>name s1.
     bnd (read_int 2 s1) (\<lambda>payload s2. Inr (TagShort name payload, s2)))"

definition TagInt_read :: "stream \<Rightarrow> bool \<Rightarrow> tag res" where
  "TagInt_read s named =
     bnd (read_name named None s) (\<lambda>name s1.
     bnd (read_int 4 s1) (\<lambda>payload s2. Inr (TagInt name payload, s2)))"

definition TagLong_read :: "stream \<Rightarrow> bool \<Rightarrow> tag res" where
  "TagLong_read s named =
     bnd (read_name named None s) (\<lambda>name s1.
     bnd (read_int 8 s1) (\<lambda>payload s2. Inr (TagLong name payload, s2)))"

definition TagFloat_read :: "stream \<Rightarrow> bool \<Rightarrow> tag res" where
  "TagFloat_read s named =
     bnd (read_name named None s) (\<lambda>name s1.
     bnd (read s1 4) (\<lambda>bs s2.
     bnd (lift (unpack_bits 4 bs) s2) (\<lambda>v s3.
       Inr (TagFloat name (float_to_double (word_of_int v)), s3))))"

definition TagDouble_read :: "stream \<Rightarrow> bool \<Rightarrow> tag res" where
  "TagDouble_read s named =
     bnd (read_name named None s) (\<lambda>name s1.
     bnd (read s1 8) (\<lambda>bs s2.
     bnd (lift (unpack_bits 8 bs) s2) (\<lambda>v s3. Inr (TagDouble name (word_of_int v), s3))))"

definition TagString_read :: "stream \<Rightarrow> bool \<Rightarrow> tag res" where
  "TagString_read s named =
     bnd (read_name named None s) (\<lambda>name s1.
     bnd (read_string s1) (\<lambda>payload s2. Inr (TagString name payload, s2)))"

text \<open>
  The array readers copy \<open>stream.read(length)\<close> into a stream of its own and read the
  elements from it:
  \<^verbatim>\<open>data = Stream(stream.read(length))\<close>
  \<^verbatim>\<open>payload = [struct.unpack(fmt, data.read(width))[0] for _ in range(length)]\<close>
\<close>

fun read_elems :: "nat \<Rightarrow> nat \<Rightarrow> stream \<Rightarrow> error + int list" where
  "read_elems w 0 d = Inr []"
| "read_elems w (Suc k) d =
     (case read d (int w) of
        Inl (e, d1) \<Rightarrow> Inl e
      | Inr (bs, d1) \<Rightarrow>
          (case unpack_int w bs of
             Inl e \<Rightarrow> Inl e
           | Inr v \<Rightarrow>
               (case read_elems w k d1 of
                  Inl e \<Rightarrow> Inl e
                | Inr vs \<Rightarrow> Inr (v # vs))))"

definition read_array :: "nat \<Rightarrow> stream \<Rightarrow> (int list) res" where
  "read_array w s =
     bnd (read_int 4 s) (\<lambda>len s1.
       if len < 0 then Inl (ValueError, s1)
       else bnd (read s1 len) (\<lambda>raw s2. lift (read_elems w (nat len) (Stream raw)) s2))"

definition TagByteArray_read :: "stream \<Rightarrow> bool \<Rightarrow> tag res" where
  "TagByteArray_read s named =
     bnd (read_name named None s) (\<lambda>name s1.
     bnd (read_array 1 s1) (\<lambda>payload s2. Inr (TagByteArray name payload, s2)))"

text \<open>
  \<open>TagIntArray.read\<close> and \<open>TagLongArray.read\<close> call \<open>read_string()\<close> with no argument
  when \<open>named\<close> is true, which raises \<open>TypeError\<close> before anything is read.
\<close>

definition TagIntArray_read :: "stream \<Rightarrow> bool \<Rightarrow> tag res" where
  "TagIntArray_read s named =
     (if named then Inl (TypeError, s)
      else bnd (read_array 4 s) (\<lambda>payload s1. Inr (TagIntArray None payload, s1)))"

definition TagLongArray_read :: "stream \<Rightarrow> bool \<Rightarrow> tag res" where
  "TagLongArray_read s named =
     (if named then Inl (TypeError, s)
      else bnd (read_array 8 s) (\<lambda>payload s1. Inr (TagLongArray None payload, s1)))"

subsection \<open>Tag.create, TagList.read and TagCompound.read\<close>

text \<open>
  The first statements of \<open>TagList.read\<close>, up to the length:
  \<^verbatim>\<open>name = read_string(stream) if named else None\<close>
  \<^verbatim>\<open>tag_id = stream.read(1)[0]\<close>
  \<^verbatim>\<open>if not tag_id in TAG_MAP: raise NotImplementedError(...)\<close>
  \<^verbatim>\<open>length = struct.unpack(">i", stream.read(4))[0]\<close>
  Indexing an empty bytes object raises \<open>IndexError\<close>.
\<close>

definition read_type_id :: "stream \<Rightarrow> tag_type res" where
  "read_type_id s =
     bnd (read s 1) (\<lambda>bs s1.
       case bs of
         [] \<Rightarrow> Inl (IndexError, s1)
       | b # rest \<Rightarrow>
           (case TAG_MAP (unat b) of
              None \<Rightarrow> Inl (NotImplementedError, s1)
            | Some c \<Rightarrow> Inr (c, s1)))"

definition list_header :: "stream \<Rightarrow> bool \<Rightarrow> (pystr option \<times> tag_type \<times> int) res" where
  "list_header s named =
     bnd (read_name named None s) (\<lambda>name s1.
     bnd (read_type_id s1) (\<lambda>tag_type s2.
     bnd (read_int 4 s2) (\<lambda>len s3. Inr ((name, tag_type, len), s3))))"

text \<open>
  The keyword argument of a \<open>read\<close> call: \<open>None\<close> when the caller passes only the stream
  (\<open>Tag.create\<close>), \<open>Some b\<close> for \<open>named=b\<close> (\<open>TagList.read\<close>).  \<open>TagEnd.read\<close> takes no
  keyword, so passing one raises \<open>TypeError\<close>; everywhere else the default is \<open>True\<close>.
\<close>

definition kw :: "bool option \<Rightarrow> bool" where
  "kw k = (case k of None \<Rightarrow> True | Some b \<Rightarrow> b)"

text \<open>
  A stream position can move backwards (a negative string length), so the recursion of
  the readers need not end: the first argument bounds the depth of calls and the number
  of loop iterations, and \<open>None\<close> means that the bound was reached.
\<close>

fun create :: "nat \<Rightarrow> stream \<Rightarrow> tag res option"
  and tag_read :: "nat \<Rightarrow> tag_type \<Rightarrow> bool option \<Rightarrow> stream \<Rightarrow> tag res option"
  and list_items :: "nat \<Rightarrow> tag_type \<Rightarrow> nat \<Rightarrow> stream \<Rightarrow> (tag list) res option"
  and compound_items :: "nat \<Rightarrow> stream \<Rightarrow> tag list \<Rightarrow> (tag list) res option"
where
  "create 0 s = None"
| "create (Suc n) s =
     (case read_type_id s of
        Inl e \<Rightarrow> Some (Inl e)
      | Inr (c, s1) \<Rightarrow> tag_read n c None s1)"
| "tag_read n T_End k s =
     (case k of None \<Rightarrow> Some (Inr (TagEnd, s)) | Some b \<Rightarrow> Some (Inl (TypeError, s)))"
| "tag_read n T_Byte k s = Some (TagByte_read s (kw k))"
| "tag_read n T_Short k s = Some (TagShort_read s (kw k))"
| "tag_read n T_Int k s = Some (TagInt_read s (kw k))"
| "tag_read n T_Long k s = Some (TagLong_read s (kw k))"
| "tag_read n T_Float k s = Some (TagFloat_read s (kw k))"
| "tag_read n T_Double k s = Some (TagDouble_read s (kw k))"
| "tag_read n T_ByteArray k s = Some (TagByteArray_read s (kw k))"
| "tag_read n T_String k s = Some (TagString_read s (kw k))"
| "tag_read n T_IntArray k s = Some (TagIntArray_read s (kw k))"
| "tag_read n T_LongArray k s = Some (TagLongArray_read s (kw k))"
| "tag_read 0 T_List k s = None"
| "tag_read (Suc n) T_List k s =
     (case list_header s (kw k) of
        Inl e \<Rightarrow> Some (Inl e)
      | Inr ((name, tag_type, len), s1) \<Rightarrow>
          if len > 0 then
            (case list_items n tag_type (nat len) s1 of
               None \<Rightarrow> None
             | Some (Inl e) \<Rightarrow> Some (Inl e)
             | Some (Inr (payload, s2)) \<Rightarrow> Some (Inr (TagList name payload, s2)))
          else Some (Inr (TagList name [], s1)))"
| "tag_read 0 T_Compound k s = None"
| "tag_read (Suc n) T_Compound k s =
     (case read_name (kw k) None s of
        Inl e \<Rightarrow> Some (Inl e)
      | Inr (name, s1) \<Rightarrow>
          (case compound_items n s1 [] of
             None \<Rightarrow> None
           | Some (Inl e) \<Rightarrow> Some (Inl e)
           | Some (Inr (payload, s2)) \<Rightarrow> Some (Inr (TagCompound name payload, s2))))"
| "list_items n tag_type 0 s = Some (Inr ([], s))"
| "list_items 0 tag_type (Suc j) s = None"
| "list_items (Suc n) tag_type (Suc j) s =
     (case tag_read n tag_type (Some False) s of
        None \<Rightarrow> None
      | Some (Inl e) \<Rightarrow> Some (Inl e)
      | Some (Inr (t, s1)) \<Rightarrow>
          (case list_items n tag_type j s1 of
             None \<Rightarrow> None
           | Some (Inl e) \<Rightarrow> Some (Inl e)
           | Some (Inr (ts, s2)) \<Rightarrow> Some (Inr (t # ts, s2))))"
| "compound_items 0 s payload = None"
| "compound_items (Suc n) s payload =
     (case create n s of
        None \<Rightarrow> None
      | Some (Inl e) \<Rightarrow> Some (Inl e)
      | Some (Inr (t, s1)) \<Rightarrow>
          if TAG_ID (class_of t) = TAG_ID T_End then Some (Inr (payload, s1))
          else compound_items n s1 (payload @ [t]))"

section \<open>nbt.py: the document\<close>

text \<open>
  \<^verbatim>\<open>stream = Stream(self.data)\<close>
  \<^verbatim>\<open>while stream.alive(): self.tags.append(Tag.create(stream))\<close>
\<close>

fun read_loop :: "nat \<Rightarrow> stream \<Rightarrow> tag list \<Rightarrow> (tag list) res option" where
  "read_loop 0 s tags = (if alive s then None else Some (Inr (tags, s)))"
| "read_loop (Suc n) s tags =
     (if alive s then
        (case create n s of
           None \<Rightarrow> None
         | Some (Inl e) \<Rightarrow> Some (Inl e)
         | Some (Inr (t, s1)) \<Rightarrow> read_loop n s1 (tags @ [t]))
      else Some (Inr (tags, s)))"

text \<open>\<open>NBT(data)\<close>: the constructor runs \<open>read\<close>; the result is the \<open>tags\<close> attribute.\<close>

definition NBT :: "nat \<Rightarrow> byte list \<Rightarrow> (error + tag list) option" where
  "NBT fuel d =
     (case read_loop fuel (Stream d) [] of
        None \<Rightarrow> None
      | Some (Inl (e, s)) \<Rightarrow> Some (Inl e)
      | Some (Inr (tags, s)) \<Rightarrow> Some (Inr tags))"

section \<open>nbt\_tag.py: writing\<close>

text \<open>\<open>name\<close> attribute of a tag object; \<open>TagEnd\<close> has none and is never asked for it.\<close>

fun name_of :: "tag \<Rightarrow> pystr option" where
  "name_of TagEnd = None"
| "name_of (TagByte n v) = n"
| "name_of (TagShort n v) = n"
| "name_of (TagInt n v) = n"
| "name_of (TagLong n v) = n"
| "name_of (TagFloat n v) = n"
| "name_of (TagDouble n v) = n"
| "name_of (TagByteArray n v) = n"
| "name_of (TagString n v) = n"
| "name_of (TagList n v) = n"
| "name_of (TagCompound n v) = n"
| "name_of (TagIntArray n v) = n"
| "name_of (TagLongArray n v) = n"

text \<open>Concatenation of two byte strings either of which may have raised.\<close>

definition cat :: "error + byte list \<Rightarrow> error + byte list \<Rightarrow> error + byte list" where
  "cat a b =
     (case a of
        Inl e \<Rightarrow> Inl e
      | Inr x \<Rightarrow> (case b of Inl e \<Rightarrow> Inl e | Inr y \<Rightarrow> Inr (x @ y)))"

definition encode_utf8 :: "pystr \<Rightarrow> error + byte list" where
  "encode_utf8 t = (case utf8_encode t of None \<Rightarrow> Inl UnicodeEncodeError | Some bs \<Rightarrow> Inr bs)"

text \<open>\<^verbatim>\<open>b''.join(struct.pack(fmt, value) for value in self.payload)\<close>\<close>

fun pack_all :: "nat \<Rightarrow> int list \<Rightarrow> error + byte list" where
  "pack_all w [] = Inr []"
| "pack_all w (v # vs) = cat (pack_int w v) (pack_all w vs)"

text \<open>
  The header written by \<open>Tag.build\<close>:
  \<^verbatim>\<open>head = struct.pack(">b", self.TAG_ID)\<close>
  \<^verbatim>\<open>if self.__class__ != TagEnd:\<close>
  \<^verbatim>\<open>    head += struct.pack(">h", len(self.name)) + self.name.encode("utf-8")\<close>
  \<open>len(None)\<close> raises \<open>TypeError\<close>.  The length written is the number of characters of
  the name.
\<close>

definition head :: "tag \<Rightarrow> error + byte list" where
  "head t =
     cat (pack_int 1 (int (TAG_ID (class_of t))))
       (if class_of t \<noteq> T_End then
          (case name_of t of
             None \<Rightarrow> Inl TypeError
           | Some n \<Rightarrow> cat (pack_int 2 (int (length n))) (encode_utf8 n))
        else Inr [])"

text \<open>
  \<open>write\<close> of every class (here \<open>tag_write\<close>), \<open>Tag.build\<close>
  (\<^verbatim>\<open>return head + self.write()\<close>), and the two joins over the children of a
  container.
\<close>

fun build :: "tag \<Rightarrow> error + byte list"
  and tag_write :: "tag \<Rightarrow> error + byte list"
  and build_all :: "tag list \<Rightarrow> error + byte list"
  and tag_write_all :: "tag list \<Rightarrow> error + byte list"
where
  "build t = cat (head t) (tag_write t)"
| "tag_write TagEnd = Inr []"
| "tag_write (TagByte n v) = pack_int 1 v"
| "tag_write (TagShort n v) = pack_int 2 v"
| "tag_write (TagInt n v) = pack_int 4 v"
| "tag_write (TagLong n v) = pack_int 8 v"
| "tag_write (TagFloat n v) =
     (case double_to_float v of
        None \<Rightarrow> Inl OverflowError
      | Some w \<Rightarrow> Inr (be_bytes 4 (uint w)))"
| "tag_write (TagDouble n v) = Inr (be_bytes 8 (uint v))"
| "tag_write (TagByteArray n vs) =
     (case pack_all 1 vs of
        Inl e \<Rightarrow> Inl e
      | Inr d \<Rightarrow> cat (pack_int 4 (int (length vs))) (Inr d))"
| "tag_write (TagString n v) = cat (pack_int 2 (int (length v))) (encode_utf8 v)"
| "tag_write (TagList n ts) =
     (if length ts = 0 then Inr [0]
      else if \<not> list_all (\<lambda>t. class_of t = class_of (hd ts)) ts then Inl ValueError
      else cat (Inr [of_nat (TAG_ID (class_of (hd ts)))])
             (cat (pack_int 4 (int (length ts))) (tag_write_all ts)))"
| "tag_write (TagCompound n ts) = cat (build_all ts) (cat (pack_int 1 0) (Inr []))"
| "tag_write (TagIntArray n vs) =
     (case pack_all 4 vs of
        Inl e \<Rightarrow> Inl e
      | Inr d \<Rightarrow> cat (pack_int 4 (int (length vs))) (Inr d))"
| "tag_write (TagLongArray n vs) =
     (case pack_all 8 vs of
        Inl e \<Rightarrow> Inl e
      | Inr d \<Rightarrow> cat (pack_int 4 (int (length vs))) (Inr d))"
| "build_all [] = Inr []"
| "build_all (t # ts) = cat (build t) (build_all ts)"
| "tag_write_all [] = Inr []"
| "tag_write_all (t # ts) = cat (tag_write t) (tag_write_all ts)"

text \<open>\<open>NBT.build\<close>: \<^verbatim>\<open>b"".join([tag.build() for tag in self.tags])\<close>\<close>

definition NBT_build :: "tag list \<Rightarrow> error + byte list" where
  "NBT_build tags = build_all tags"

section \<open>The structural dump\<close>

text \<open>
  The values \<open>__json__\<close> builds: \<open>None\<close>, integers, floats (doubles, as their 64
  bits), strings, lists, and dictionaries with string keys in insertion order.
\<close>

datatype json =
    JNone
  | JInt int
  | JFloat "64 word"
  | JStr pystr
  | JList "json list"
  | JDict "(string \<times> json) list"

definition lit :: "string \<Rightarrow> pystr" where
  "lit cs = map of_char cs"

definition jname :: "pystr option \<Rightarrow> json" where
  "jname n = (case n of None \<Rightarrow> JNone | Some t \<Rightarrow> JStr t)"

fun TAG_NAME :: "tag_type \<Rightarrow> string" where
  "TAG_NAME T_End = ''TAG_End''"
| "TAG_NAME T_Byte = ''TAG_Byte''"
| "TAG_NAME T_Short = ''TAG_Short''"
| "TAG_NAME T_Int = ''TAG_Int''"
| "TAG_NAME T_Long = ''TAG_Long''"
| "TAG_NAME T_Float = ''TAG_Float''"
| "TAG_NAME T_Double = ''TAG_Double''"
| "TAG_NAME T_ByteArray = ''TAG_Byte_Array''"
| "TAG_NAME T_String = ''TAG_String''"
| "TAG_NAME T_List = ''TAG_List''"
| "TAG_NAME T_Compound = ''TAG_Compound''"
| "TAG_NAME T_IntArray = ''TAG_IntArray''"
| "TAG_NAME T_LongArray = ''TAG_LongArray''"

definition entry :: "string \<Rightarrow> pystr option \<Rightarrow> json \<Rightarrow> json" where
  "entry ty n v = JDict [(''type'', JStr (lit ty)), (''name'', jname n), (''payload'', v)]"

text \<open>\<^verbatim>\<open>tag.__json__()["payload"]\<close>: a missing key raises \<open>KeyError\<close>.\<close>

definition payload_of :: "json \<Rightarrow> error + json" where
  "payload_of j =
     (case j of
        JDict kvs \<Rightarrow> (case map_of kvs ''payload'' of None \<Rightarrow> Inl KeyError | Some v \<Rightarrow> Inr v)
      | _ \<Rightarrow> Inl TypeError)"

text \<open>
  \<open>TagList.__json__\<close> binds \<open>tag_type\<close> to the string \<open>"TAG_End"\<close> when the payload is
  empty and then evaluates \<open>tag_type.TAG_NAME\<close>: a \<open>str\<close> has no such attribute, so the
  call raises \<open>AttributeError\<close>.
\<close>

fun to_json :: "tag \<Rightarrow> error + json"
  and to_json_all :: "tag list \<Rightarrow> error + json list"
  and to_json_payloads :: "tag list \<Rightarrow> error + json list"
where
  "to_json TagEnd = Inr (JDict [(''type'', JStr (lit ''TAG_End''))])"
| "to_json (TagByte n v) = Inr (entry ''TAG_Byte'' n (JInt v))"
| "to_json (TagShort n v) = Inr (entry ''TAG_Short'' n (JInt v))"
| "to_json (TagInt n v) = Inr (entry ''TAG_Int'' n (JInt v))"
| "to_json (TagLong n v) = Inr (entry ''TAG_Long'' n (JInt v))"
| "to_json (TagFloat n v) = Inr (entry ''TAG_Float'' n (JFloat v))"
| "to_json (TagDouble n v) = Inr (entry ''TAG_Double'' n (JFloat v))"
| "to_json (TagByteArray n vs) = Inr (entry ''TAG_ByteArray'' n (JList (map JInt vs)))"
| "to_json (TagString n v) = Inr (entry ''TAG_String'' n (JStr v))"
| "to_json (TagList n ts) =
     (if length ts = 0 then Inl AttributeError
      else
        (case to_json_payloads ts of
           Inl e \<Rightarrow> Inl e
         | Inr ps \<Rightarrow>
             Inr (JDict [(''type'', JStr (lit ''TAG_List'')), (''name'', jname n),
                         (''data_type'', JStr (lit (TAG_NAME (class_of (hd ts))))),
                         (''payload'', JList ps)])))"
| "to_json (TagCompound n ts) =
     (case to_json_all ts of
        Inl e \<Rightarrow> Inl e
      | Inr js \<Rightarrow> Inr (entry ''TAG_Compound'' n (JList js)))"
| "to_json (TagIntArray n vs) = Inr (entry ''TAG_IntArray'' n (JList (map JInt vs)))"
| "to_json (TagLongArray n vs) = Inr (entry ''TAG_LongArray'' n (JList (map JInt vs)))"
| "to_json_all [] = Inr []"
| "to_json_all (t # ts) =
     (case to_json t of
        Inl e \<Rightarrow> Inl e
      | Inr j \<Rightarrow> (case to_json_all ts of Inl e \<Rightarrow> Inl e | Inr js \<Rightarrow> Inr (j # js)))"
| "to_json_payloads [] = Inr []"
| "to_json_payloads (t # ts) =
     (case to_json t of
        Inl e \<Rightarrow> Inl e
      | Inr j \<Rightarrow>
          (case payload_of j of
             Inl e \<Rightarrow> Inl e
           | Inr v \<Rightarrow>
               (case to_json_payloads ts of Inl e \<Rightarrow> Inl e | Inr vs \<Rightarrow> Inr (v # vs))))"

text \<open>\<open>NBT.dict\<close>: \<^verbatim>\<open>[tag.__json__() for tag in self.tags]\<close>\<close>

definition NBT_dict :: "tag list \<Rightarrow> error + json list" where
  "NBT_dict tags = to_json_all tags"

section \<open>Specification of a run of named tags\<close>

text \<open>
  Specification side of the Compound property: \<open>decode_seq n s ts = Some s1\<close> says that
  decoding full named tags through \<open>Tag.create\<close>, one after the other from stream \<open>s\<close>,
  yields exactly the tags \<open>ts\<close> in this order, none of them an End tag, and leaves the
  stream as \<open>s1\<close>.  It is not part of the program.
\<close>

fun decode_seq :: "nat \<Rightarrow> stream \<Rightarrow> tag list \<Rightarrow> stream option" where
  "decode_seq n s [] = Some s"
| "decode_seq n s (t # ts) =
     (case create n s of
        Some (Inr (u, s1)) \<Rightarrow> if u = t \<and> t \<noteq> TagEnd then decode_seq n s1 ts else None
      | _ \<Rightarrow> None)"

section \<open>Auxiliary facts\<close>

lemma TAG_MAP_None: "TAG_MAP i = None \<longleftrightarrow> 12 < i"
  unfolding TAG_MAP_def by (simp, arith)

lemma tag_read_leaf_fuel:
  "c \<noteq> T_List \<Longrightarrow> c \<noteq> T_Compound \<Longrightarrow> tag_read n c k s = tag_read m c k s"
  by (cases c) simp_all

lemma fuel_step:
  "(\<forall>s r. create n s = Some r \<longrightarrow> create (Suc n) s = Some r) \<and>
   (\<forall>c k s r. tag_read n c k s = Some r \<longrightarrow> tag_read (Suc n) c k s = Some r) \<and>
   (\<forall>c j s r. list_items n c j s = Some r \<longrightarrow> list_items (Suc n) c j s = Some r) \<and>
   (\<forall>s p r. compound_items n s p = Some r \<longrightarrow> compound_items (Suc n) s p = Some r)"
proof (induction n)
  case 0
  have a: "\<forall>c k s r. tag_read 0 c k s = Some r \<longrightarrow> tag_read (Suc 0) c k s = Some r"
  proof (intro allI impI)
    fix c k s r assume h: "tag_read 0 c k s = Some r"
    then have "c \<noteq> T_List" "c \<noteq> T_Compound" by auto
    then show "tag_read (Suc 0) c k s = Some r" using h tag_read_leaf_fuel by metis
  qed
  have b: "\<forall>c j s r. list_items 0 c j s = Some r \<longrightarrow> list_items (Suc 0) c j s = Some r"
  proof (intro allI impI)
    fix c j s r assume h: "list_items 0 c j s = Some r"
    then show "list_items (Suc 0) c j s = Some r" by (cases j) simp_all
  qed
  show ?case using a b by simp
next
  case (Suc n)
  then have ih_create: "\<And>s r. create n s = Some r \<Longrightarrow> create (Suc n) s = Some r"
    and ih_tag: "\<And>c k s r. tag_read n c k s = Some r \<Longrightarrow> tag_read (Suc n) c k s = Some r"
    and ih_list: "\<And>c j s r. list_items n c j s = Some r \<Longrightarrow> list_items (Suc n) c j s = Some r"
    and ih_comp: "\<And>s p r. compound_items n s p = Some r \<Longrightarrow> compound_items (Suc n) s p = Some r"
    by blast+
  have a: "create (Suc (Suc n)) s = Some r" if h: "create (Suc n) s = Some r" for s r
  proof (cases "read_type_id s")
    case (Inl e)
    then show ?thesis using h by simp
  next
    case (Inr x)
    obtain c s1 where x: "x = (c, s1)" by (cases x)
    from h Inr x have "tag_read n c None s1 = Some r" by simp
    then have "tag_read (Suc n) c None s1 = Some r" by (rule ih_tag)
    then show ?thesis using Inr x by (simp del: tag_read.simps)
  qed
  have b: "tag_read (Suc (Suc n)) c k s = Some r" if h: "tag_read (Suc n) c k s = Some r" for c k s r
  proof (cases c)
    case T_List
    show ?thesis
    proof (cases "list_header s (kw k)")
      case (Inl e)
      then show ?thesis using h T_List by simp
    next
      case (Inr x)
      obtain name tt len s1 where x: "x = ((name, tt, len), s1)" by (cases x) auto
      show ?thesis
      proof (cases "len > 0")
        case False
        then show ?thesis using h T_List Inr x by simp
      next
        case True
        show ?thesis
        proof (cases "list_items n tt (nat len) s1")
          case None
          then show ?thesis using h T_List Inr x True by simp
        next
          case (Some y)
          then have "list_items (Suc n) tt (nat len) s1 = Some y" by (rule ih_list)
          then show ?thesis using h T_List Inr x True Some
            by (simp del: list_items.simps)
        qed
      qed
    qed
  next
    case T_Compound
    show ?thesis
    proof (cases "read_name (kw k) None s")
      case (Inl e)
      then show ?thesis using h T_Compound by simp
    next
      case (Inr x)
      obtain name s1 where x: "x = (name, s1)" by (cases x)
      show ?thesis
      proof (cases "compound_items n s1 []")
        case None
        then show ?thesis using h T_Compound Inr x by simp
      next
        case (Some y)
        then have "compound_items (Suc n) s1 [] = Some y" by (rule ih_comp)
        then show ?thesis using h T_Compound Inr x Some
          by (simp del: compound_items.simps)
      qed
    qed
  qed (use h in simp_all)
  have c: "list_items (Suc (Suc n)) c j s = Some r" if h: "list_items (Suc n) c j s = Some r" for c j s r
  proof (cases j)
    case 0
    then show ?thesis using h by simp
  next
    case (Suc j')
    show ?thesis
    proof (cases "tag_read n c (Some False) s")
      case None
      then show ?thesis using h Suc by simp
    next
      case (Some y)
      then have y1: "tag_read (Suc n) c (Some False) s = Some y" by (rule ih_tag)
      show ?thesis
      proof (cases y)
        case (Inl e)
        then show ?thesis using h Suc Some y1 by (simp del: tag_read.simps)
      next
        case (Inr x)
        obtain t s1 where x: "x = (t, s1)" by (cases x)
        show ?thesis
        proof (cases "list_items n c j' s1")
          case None
          then show ?thesis using h Suc Some Inr x by simp
        next
          case (Some z)
          then have "list_items (Suc n) c j' s1 = Some z" by (rule ih_list)
          then show ?thesis using h Suc \<open>tag_read n c (Some False) s = Some y\<close> y1 Inr x Some
            by (simp del: tag_read.simps list_items.simps add: list_items.simps(3))
        qed
      qed
    qed
  qed
  have d: "compound_items (Suc (Suc n)) s p = Some r" if h: "compound_items (Suc n) s p = Some r" for s p r
  proof (cases "create n s")
    case None
    then show ?thesis using h by simp
  next
    case (Some y)
    then have y1: "create (Suc n) s = Some y" by (rule ih_create)
    show ?thesis
    proof (cases y)
      case (Inl e)
      then show ?thesis using h Some y1 by (simp del: create.simps)
    next
      case (Inr x)
      obtain t s1 where x: "x = (t, s1)" by (cases x)
      show ?thesis
      proof (cases "TAG_ID (class_of t) = TAG_ID T_End")
        case True
        then show ?thesis using h Some y1 Inr x by (simp del: create.simps)
      next
        case False
        then have "compound_items n s1 (p @ [t]) = Some r" using h Some Inr x by simp
        then have "compound_items (Suc n) s1 (p @ [t]) = Some r" by (rule ih_comp)
        then show ?thesis using False y1 Inr x
          by (simp del: create.simps compound_items.simps add: compound_items.simps(2))
      qed
    qed
  qed
  show ?case using a b c d by blast
qed

lemma create_mono: "create n s = Some r \<Longrightarrow> n \<le> m \<Longrightarrow> create m s = Some r"
proof (induction m)
  case 0
  then show ?case by simp
next
  case (Suc m)
  show ?case
  proof (cases "n = Suc m")
    case True
    then show ?thesis using Suc.prems by simp
  next
    case False
    then have "create m s = Some r" using Suc by simp
    then show ?thesis using fuel_step [of m] by blast
  qed
qed

lemma tag_read_mono: "tag_read n c k s = Some r \<Longrightarrow> n \<le> m \<Longrightarrow> tag_read m c k s = Some r"
proof (induction m)
  case 0
  then show ?case by simp
next
  case (Suc m)
  show ?case
  proof (cases "n = Suc m")
    case True
    then show ?thesis using Suc.prems by simp
  next
    case False
    then have "tag_read m c k s = Some r" using Suc by simp
    then show ?thesis using fuel_step [of m] by blast
  qed
qed

lemma compound_items_mono:
  "compound_items n s p = Some r \<Longrightarrow> n \<le> m \<Longrightarrow> compound_items m s p = Some r"
proof (induction m)
  case 0
  then show ?case by simp
next
  case (Suc m)
  show ?case
  proof (cases "n = Suc m")
    case True
    then show ?thesis using Suc.prems by simp
  next
    case False
    then have "compound_items m s p = Some r" using Suc by simp
    then show ?thesis using fuel_step [of m] by blast
  qed
qed

lemma TAG_ID_End: "TAG_ID (class_of t) = 0 \<longleftrightarrow> t = TagEnd"
  by (cases t) simp_all

lemma TAG_ID_pos: "0 < TAG_ID (class_of t) \<longleftrightarrow> t \<noteq> TagEnd"
  by (cases t) simp_all

lemma create_exhausted: "\<not> alive s \<Longrightarrow> create (Suc n) s = Some (Inl (EOFError, s))"
  by (simp add: alive_def read_type_id_def read_def bnd_def)


lemma decode_seq_Cons:
  "decode_seq n s (t # ts) = Some s2 \<longleftrightarrow>
     t \<noteq> TagEnd \<and> (\<exists>s1. create n s = Some (Inr (t, s1)) \<and> decode_seq n s1 ts = Some s2)"
  by (auto split: option.splits sum.splits if_splits simp del: create.simps)

lemma decode_seq_mono:
  "decode_seq n s ts = Some s1 \<Longrightarrow> n \<le> m \<Longrightarrow> decode_seq m s ts = Some s1"
proof (induction ts arbitrary: s)
  case Nil
  then show ?case by simp
next
  case (Cons t ts)
  from Cons.prems(1) obtain s' where ne: "t \<noteq> TagEnd"
    and c: "create n s = Some (Inr (t, s'))" and r: "decode_seq n s' ts = Some s1"
    unfolding decode_seq_Cons by blast
  have "create m s = Some (Inr (t, s'))" using c Cons.prems(2) by (rule create_mono)
  moreover have "decode_seq m s' ts = Some s1" using r Cons.prems(2) by (rule Cons.IH)
  ultimately show ?case using ne unfolding decode_seq_Cons by blast
qed

lemma decode_seq_no_End: "decode_seq n s ts = Some s1 \<Longrightarrow> TagEnd \<notin> set ts"
proof (induction ts arbitrary: s)
  case Nil
  then show ?case by simp
next
  case (Cons t ts)
  then show ?case unfolding decode_seq_Cons by auto
qed

lemma compound_items_End:
  assumes "decode_seq n s ts = Some s1" and "create n s1 = Some (Inr (TagEnd, s2))"
  shows "compound_items (Suc (n + length ts)) s acc = Some (Inr (acc @ ts, s2))"
  using assms
proof (induction ts arbitrary: s acc)
  case Nil
  then show ?case by (simp del: create.simps)
next
  case (Cons t ts)
  from Cons.prems(1) obtain s' where ne: "t \<noteq> TagEnd"
    and c: "create n s = Some (Inr (t, s'))" and r: "decode_seq n s' ts = Some s1"
    unfolding decode_seq_Cons by blast
  have c': "create (Suc (n + length ts)) s = Some (Inr (t, s'))"
    using c by (rule create_mono) simp
  have "compound_items (Suc (n + length ts)) s' (acc @ [t]) = Some (Inr ((acc @ [t]) @ ts, s2))"
    using r Cons.prems(2) by (rule Cons.IH)
  then show ?case using c' ne
    by (simp del: create.simps compound_items.simps add: compound_items.simps(2) TAG_ID_End TAG_ID_pos)
qed

lemma compound_items_error:
  assumes "decode_seq n s ts = Some s1" and "create n s1 = Some (Inl e)"
  shows "compound_items (Suc (n + length ts)) s acc = Some (Inl e)"
  using assms
proof (induction ts arbitrary: s acc)
  case Nil
  then show ?case by (simp del: create.simps)
next
  case (Cons t ts)
  from Cons.prems(1) obtain s' where ne: "t \<noteq> TagEnd"
    and c: "create n s = Some (Inr (t, s'))" and r: "decode_seq n s' ts = Some s1"
    unfolding decode_seq_Cons by blast
  have c': "create (Suc (n + length ts)) s = Some (Inr (t, s'))"
    using c by (rule create_mono) simp
  have "compound_items (Suc (n + length ts)) s' (acc @ [t]) = Some (Inl e)"
    using r Cons.prems(2) by (rule Cons.IH)
  then show ?case using c' ne
    by (simp del: create.simps compound_items.simps add: compound_items.simps(2) TAG_ID_End TAG_ID_pos)
qed

lemma compound_items_sound:
  "compound_items n s acc = Some (Inr (kids, s2)) \<Longrightarrow>
     \<exists>ts s1. kids = acc @ ts \<and> decode_seq n s ts = Some s1
              \<and> create n s1 = Some (Inr (TagEnd, s2))"
proof (induction n arbitrary: s acc)
  case 0
  then show ?case by simp
next
  case (Suc n)
  show ?case
  proof (cases "create n s")
    case None
    then show ?thesis using Suc.prems by simp
  next
    case (Some y)
    show ?thesis
    proof (cases y)
      case (Inl e)
      then show ?thesis using Suc.prems Some by simp
    next
      case (Inr x)
      obtain t s' where x: "x = (t, s')" by (cases x)
      have c: "create n s = Some (Inr (t, s'))" using Some Inr x by simp
      have c': "create (Suc n) s = Some (Inr (t, s'))" using c by (rule create_mono) simp
      show ?thesis
      proof (cases "t = TagEnd")
        case True
        then have "kids = acc" "s2 = s'" using Suc.prems c by simp_all
        then have "kids = acc @ [] \<and> decode_seq (Suc n) s [] = Some s
                   \<and> create (Suc n) s = Some (Inr (TagEnd, s2))"
          using c' True by (simp del: create.simps)
        then show ?thesis by blast
      next
        case False
        then have "compound_items n s' (acc @ [t]) = Some (Inr (kids, s2))"
          using Suc.prems c by (simp add: TAG_ID_End)
        then obtain ts s1 where k: "kids = (acc @ [t]) @ ts"
          and d: "decode_seq n s' ts = Some s1"
          and e: "create n s1 = Some (Inr (TagEnd, s2))"
          using Suc.IH by blast
        have d': "decode_seq (Suc n) s' ts = Some s1" using d by (rule decode_seq_mono) simp
        have e': "create (Suc n) s1 = Some (Inr (TagEnd, s2))" using e by (rule create_mono) simp
        have "decode_seq (Suc n) s (t # ts) = Some s1"
          unfolding decode_seq_Cons using False c' d' by blast
        then have "kids = acc @ (t # ts) \<and> decode_seq (Suc n) s (t # ts) = Some s1
                   \<and> create (Suc n) s1 = Some (Inr (TagEnd, s2))"
          using k e' by simp
        then show ?thesis by blast
      qed
    qed
  qed
qed

lemma py_slice_nonneg:
  assumes "0 \<le> a" and "0 \<le> n" and "a + n \<le> int (length xs)"
  shows "py_slice xs a (a + n) = take (nat n) (drop (nat a) xs)"
proof -
  have 1: "nat (a + n) \<le> length xs" using assms by linarith
  have 2: "nat a \<le> length xs" using assms by linarith
  have 3: "nat (a + n) - nat a = nat n" using assms by linarith
  have 4: "\<not> a + n < 0" "\<not> a < 0" using assms by linarith+
  show ?thesis using 1 2 3 4 by (simp add: py_slice_def slice_bound_def min_def)
qed

lemma py_slice_empty:
  assumes "b < a" and "\<not> (0 \<le> a \<and> b < 0 \<and> a - b < int (length xs))"
  shows "py_slice xs a b = []"
  using assms by (auto simp: py_slice_def slice_bound_def min_def max_def)

lemma py_slice_wrap:
  assumes "0 \<le> a" and "a \<le> int (length xs)" and "b < 0" and "a - b < int (length xs)"
  shows "py_slice xs a b = take (nat (int (length xs) + b - a)) (drop (nat a) xs)"
    and "length (py_slice xs a b) = nat (int (length xs) + b - a)"
proof -
  have 1: "slice_bound (length xs) a = nat a" using assms by (simp add: slice_bound_def)
  have 2: "slice_bound (length xs) b = nat (b + int (length xs))"
    using assms by (simp add: slice_bound_def)
  have 3: "nat (b + int (length xs)) - nat a = nat (int (length xs) + b - a)"
    using assms by linarith
  show "py_slice xs a b = take (nat (int (length xs) + b - a)) (drop (nat a) xs)"
    by (simp add: py_slice_def 1 2 3)
  then show "length (py_slice xs a b) = nat (int (length xs) + b - a)"
    using assms by simp
qed

lemma utf8_decode_Nil: "utf8_decode bs = Some [] \<Longrightarrow> bs = []"
  by (cases bs) (auto split: if_splits list.splits)

lemma loop_create:
  "create (Suc m) \<lparr>data = [10, 0, 0, 8, 0, 0, 255, 251], index = 3\<rparr>
     = Some (Inr (TagString (Some []) [], \<lparr>data = [10, 0, 0, 8, 0, 0, 255, 251], index = 3\<rparr>))"
proof -
  let ?d = "[10, 0, 0, 8, 0, 0, 255, 251] :: byte list"
  have 1: "read_type_id \<lparr>data = ?d, index = 3\<rparr> = Inr (T_String, \<lparr>data = ?d, index = 4\<rparr>)"
    by code_simp
  have 2: "TagString_read \<lparr>data = ?d, index = 4\<rparr> True
             = Inr (TagString (Some []) [], \<lparr>data = ?d, index = 3\<rparr>)"
    by code_simp
  show ?thesis by (simp add: 1 2 kw_def)
qed

lemma loop_compound_items:
  "compound_items n \<lparr>data = [10, 0, 0, 8, 0, 0, 255, 251], index = 3\<rparr> acc = None"
proof (induction n arbitrary: acc)
  case 0
  show ?case by simp
next
  case (Suc n)
  show ?case
  proof (cases n)
    case 0
    then show ?thesis by simp
  next
    case (Suc m)
    have "compound_items (Suc m) \<lparr>data = [10, 0, 0, 8, 0, 0, 255, 251], index = 3\<rparr>
            (acc @ [TagString (Some []) []]) = None"
      using Suc.IH Suc by simp
    then show ?thesis
      unfolding Suc compound_items.simps(2) [of "Suc m"] loop_create by simp
  qed
qed

section \<open>Properties of the codec\<close>

text \<open>
  C8.  Decoding a tag whose type-id byte is not in the registry (ids 0 to 12) raises
  \<open>NotImplementedError\<close>, the unsupported-type condition, and the stream stands just
  after that single byte: whenever \<open>stream.read(1)\<close> delivers a first byte \<open>b\<close> above 12,
  \<open>Tag.create\<close> fails with the stream that this one read left, whose index is one more
  than before.
\<close>

theorem create_unregistered_type_id:
  assumes "read s 1 = Inr (b # rest, s1)" and "12 < unat b"
  shows "create (Suc n) s = Some (Inl (NotImplementedError, s1))
         \<and> index s1 = index s + 1 \<and> data s1 = data s"
proof -
  have "TAG_MAP (unat b) = None" using assms(2) by (simp add: TAG_MAP_None)
  then have "read_type_id s = Inl (NotImplementedError, s1)"
    using assms(1) by (simp add: read_type_id_def bnd_def)
  moreover have "index s1 = index s + 1 \<and> data s1 = data s"
    using assms(1) by (auto simp: read_def split: if_splits)
  ultimately show ?thesis by simp
qed

theorem create_unregistered_type_id_witness:
  "create (Suc 0) (Stream [13, 1, 2])
     = Some (Inl (NotImplementedError, \<lparr>data = [13, 1, 2], index = 1\<rparr>))"
proof -
  have r: "read (Stream [13, 1, 2]) 1 = Inr ([13] @ [], \<lparr>data = [13, 1, 2], index = 1\<rparr>)"
    by code_simp
  have b: "12 < unat (13 :: byte)" by simp
  show ?thesis using create_unregistered_type_id [of "Stream [13, 1, 2]" 13 "[]" _ 0] r b
    by simp
qed

text \<open>
  C6 fails on the code.  A Compound whose child is an IntArray, written by
  \<open>NBT.build\<close> as \<open>0a 00 00 0b 00 00 00 00 00 00 00\<close>, is not decoded: the named
  IntArray reader raises \<open>TypeError\<close> at \<open>read_string()\<close>, so the child is never
  accumulated.  Without the End byte the same decode raises \<open>TypeError\<close>, not the
  out-of-bounds \<open>EOFError\<close>.  And the Compound \<open>0a 00 00 08 00 00 ff fb\<close>, which has no
  End tag, never fails: its String child has the payload length \<open>-5\<close>, which puts the
  stream back at index 3, so \<open>TagCompound.read\<close> decodes the same child again and
  again; no bound on the number of steps lets the decode return.
\<close>

theorem compound_read_failures:
  "NBT_build [TagCompound (Some []) [TagIntArray (Some []) []]]
     = Inr [10, 0, 0, 11, 0, 0, 0, 0, 0, 0, 0]
   \<and> NBT 5 [10, 0, 0, 11, 0, 0, 0, 0, 0, 0, 0] = Some (Inl TypeError)
   \<and> NBT 5 [10, 0, 0, 11, 0, 0, 0, 0, 0, 0] = Some (Inl TypeError)
   \<and> NBT fuel [10, 0, 0, 8, 0, 0, 255, 251] = None"
proof -
  let ?d = "[10, 0, 0, 8, 0, 0, 255, 251] :: byte list"
  have a: "NBT_build [TagCompound (Some []) [TagIntArray (Some []) []]]
             = Inr [10, 0, 0, 11, 0, 0, 0, 0, 0, 0, 0]"
    by code_simp
  have b: "NBT 5 [10, 0, 0, 11, 0, 0, 0, 0, 0, 0, 0] = Some (Inl TypeError)" by code_simp
  have c: "NBT 5 [10, 0, 0, 11, 0, 0, 0, 0, 0, 0] = Some (Inl TypeError)" by code_simp
  have 1: "read_type_id (Stream ?d) = Inr (T_Compound, \<lparr>data = ?d, index = 1\<rparr>)"
    by code_simp
  have 2: "read_name True None \<lparr>data = ?d, index = 1\<rparr>
             = Inr (Some [], \<lparr>data = ?d, index = 3\<rparr>)"
    by code_simp
  have 3: "tag_read k T_Compound None \<lparr>data = ?d, index = 1\<rparr> = None" for k
    by (cases k) (simp_all add: kw_def 2 loop_compound_items del: compound_items.simps)
  have 4: "create k (Stream ?d) = None" for k
    by (cases k) (simp_all add: 1 3 del: tag_read.simps)
  have 5: "alive (Stream ?d)" by (simp add: alive_def Stream_def)
  have 6: "read_loop k (Stream ?d) [] = None" for k
    by (cases k) (simp_all add: 4 5 del: create.simps)
  have d: "NBT fuel ?d = None" by (simp add: NBT_def 6)
  show ?thesis using a b c d by simp
qed

text \<open>
  C1 (round trip) fails on the code.  The bytes \<open>09 00 00 00 00 00 00 00\<close> decode to
  the document holding one empty List named \<open>""\<close>; \<open>NBT.build\<close> of that document gives
  \<open>09 00 00 00\<close>, because \<open>TagList.write\<close> returns the single byte \<open>00\<close> for an empty
  list; decoding these four bytes raises \<open>EOFError\<close> when \<open>TagList.read\<close> asks for the
  four bytes of the length.
\<close>

theorem roundtrip_empty_list_fails:
  "NBT 3 [9, 0, 0, 0, 0, 0, 0, 0] = Some (Inr [TagList (Some []) []])
   \<and> NBT_build [TagList (Some []) []] = Inr [9, 0, 0, 0]
   \<and> NBT 3 [9, 0, 0, 0] = Some (Inl EOFError)"
  by code_simp

text \<open>
  C2 fails on the code.  \<open>TagIntArray.read\<close> and \<open>TagLongArray.read\<close> take
  \<open>stream.read(length)\<close>, that is \<open>length\<close> bytes and not \<open>length\<close> elements, and then
  read \<open>length\<close> elements of 4 or 8 bytes from them: an array of one element raises
  \<open>EOFError\<close> although the buffer holds the element (the writer produces exactly these
  bytes).  With a name, as at the root or inside a Compound, both readers raise
  \<open>TypeError\<close> at \<open>read_string()\<close>, called without the stream.
\<close>

theorem int_array_read_fails:
  "TagIntArray_read (Stream [0, 0, 0, 1, 0, 0, 0, 7]) False
     = Inl (EOFError, \<lparr>data = [0, 0, 0, 1, 0, 0, 0, 7], index = 5\<rparr>)
   \<and> TagLongArray_read (Stream [0, 0, 0, 1, 0, 0, 0, 0, 0, 0, 0, 7]) False
     = Inl (EOFError, \<lparr>data = [0, 0, 0, 1, 0, 0, 0, 0, 0, 0, 0, 7], index = 5\<rparr>)
   \<and> NBT 3 [11, 0, 0, 0, 0, 0, 1, 0, 0, 0, 7] = Some (Inl TypeError)
   \<and> NBT 3 [12, 0, 0, 0, 0, 0, 1, 0, 0, 0, 0, 0, 0, 0, 7] = Some (Inl TypeError)
   \<and> tag_write (TagIntArray None [7]) = Inr [0, 0, 0, 1, 0, 0, 0, 7]"
  by code_simp

text \<open>
  C3 fails on the code.  \<open>TagList.write\<close> of a list with no elements returns
  \<^verbatim>\<open>bytes([0x00])\<close>, the one byte \<open>00\<close>, whatever the name: the four bytes of the
  length are not written.
\<close>

theorem empty_list_write_one_byte: "tag_write (TagList name []) = Inr [0]"
  by simp

text \<open>
  C4 fails on the code.  \<open>TagList.read\<close> looks the element type id up in \<open>TAG_MAP\<close>
  before it reads the length, so a List of length 0 whose declared element type is the
  unregistered id \<open>0x0d\<close> raises \<open>NotImplementedError\<close>; with a registered id the same
  bytes give the empty List.
\<close>

theorem list_read_unregistered_type_aborts:
  "NBT 3 [9, 0, 0, 13, 0, 0, 0, 0] = Some (Inl NotImplementedError)
   \<and> NBT 3 [9, 0, 0, 1, 0, 0, 0, 0] = Some (Inr [TagList (Some []) []])"
  by code_simp

text \<open>
  C5 fails on the code.  The document decoded from \<open>09 00 00 00 00 00 00 00\<close> holds an
  empty List, and \<open>NBT.dict\<close> of it raises \<open>AttributeError\<close>: \<open>TagList.__json__\<close> asks
  the string \<open>"TAG_End"\<close> for its \<open>TAG_NAME\<close>.
\<close>

theorem dict_empty_list_fails:
  "NBT 3 [9, 0, 0, 0, 0, 0, 0, 0] = Some (Inr [TagList (Some []) []])
   \<and> NBT_dict [TagList (Some []) []] = Inl AttributeError"
  by code_simp

text \<open>
  C7 fails on the code for named IntArray and LongArray tags.  Decoding
  \<open>0b 00 00 ff ff ff ff\<close> (or the same with \<open>0c\<close>) raises \<open>TypeError\<close> at
  \<open>read_string()\<close>, with only the type-id byte consumed: the length prefix \<open>-1\<close> is never
  read and no \<open>ValueError\<close> is raised.  The ByteArray reader, which passes the stream
  to \<open>read_string\<close>, raises \<open>ValueError\<close> right after the prefix.
\<close>

theorem named_array_negative_length_TypeError:
  "NBT 3 [11, 0, 0, 255, 255, 255, 255] = Some (Inl TypeError)
   \<and> NBT 3 [12, 0, 0, 255, 255, 255, 255] = Some (Inl TypeError)
   \<and> create 3 (Stream [11, 0, 0, 255, 255, 255, 255])
      = Some (Inl (TypeError, \<lparr>data = [11, 0, 0, 255, 255, 255, 255], index = 1\<rparr>))
   \<and> create 3 (Stream [7, 0, 0, 255, 255, 255, 255])
      = Some (Inl (ValueError, \<lparr>data = [7, 0, 0, 255, 255, 255, 255], index = 7\<rparr>))"
  by code_simp

text \<open>
  C9 fails on the code.  \<open>Stream.read\<close> does not refuse a negative size: at index 5 of
  a 5-byte buffer \<open>read(-1)\<close> succeeds and leaves the index at 4.  The document
  \<open>08 00 00 ff ff\<close> (a String whose payload length is \<open>-1\<close>) reaches this call, after
  which the byte \<open>ff\<close> is decoded a second time, as a type id.  With a larger negative
  length the index leaves the buffer: reading the name of \<open>08 ff fc 41 42 43\<close> leaves
  it at \<open>-1\<close>.
\<close>

theorem stream_index_moves_backwards:
  "read \<lparr>data = [8, 0, 0, 255, 255], index = 5\<rparr> (- 1)
     = Inr ([], \<lparr>data = [8, 0, 0, 255, 255], index = 4\<rparr>)
   \<and> NBT 3 [8, 0, 0, 255, 255] = Some (Inl NotImplementedError)
   \<and> read_string \<lparr>data = [8, 255, 252, 65, 66, 67], index = 1\<rparr>
     = Inr ([65, 66], \<lparr>data = [8, 255, 252, 65, 66, 67], index = - 1\<rparr>)"
  by code_simp

text \<open>
  C10, as amended.  Take any stream on which the two bytes of a length prefix are read
  and unpack to a negative signed 16-bit value \<open>p\<close>; let \<open>a\<close> be the index after the
  prefix.  Then \<open>Stream.read(p)\<close> passes the bounds check, returns the slice
  \<open>data[a : a+p]\<close> and lowers the index by \<open>-p\<close>, so the cursor moves backwards, and
  \<open>read_string\<close> decodes that slice.  Unless \<open>0 \<le> a\<close>, \<open>a + p < 0\<close> and \<open>-p < len\<close>,
  the slice is empty: \<open>read_string\<close> raises nothing and returns the empty string.  In
  that one case the negative end of the slice counts from the end of the buffer: the
  slice holds the \<open>len + p\<close> bytes from \<open>a\<close> on, at least one, and \<open>read_string\<close>
  returns their UTF-8 text, which is not empty, or raises \<open>UnicodeDecodeError\<close> when
  they are not UTF-8.
\<close>

theorem read_string_negative_prefix:
  fixes s :: stream
  defines "a \<equiv> index s + 2"
  assumes "read s 2 = Inr (bs, s1)" and "unpack_int 2 bs = Inr p" and "p < 0"
  shows "read s1 p = Inr (py_slice (data s) a (a + p), s\<lparr>index := a + p\<rparr>)
         \<and> a + p < a
         \<and> read_string s = lift (decode_utf8 (py_slice (data s) a (a + p))) (s\<lparr>index := a + p\<rparr>)
         \<and> (if 0 \<le> a \<and> a + p < 0 \<and> - p < int (length (data s))
            then py_slice (data s) a (a + p)
                   = take (nat (int (length (data s)) + p)) (drop (nat a) (data s))
                 \<and> length (py_slice (data s) a (a + p)) = nat (int (length (data s)) + p)
                 \<and> py_slice (data s) a (a + p) \<noteq> []
                 \<and> (case utf8_decode (py_slice (data s) a (a + p)) of
                       None \<Rightarrow> read_string s = Inl (UnicodeDecodeError, s\<lparr>index := a + p\<rparr>)
                     | Some t \<Rightarrow> read_string s = Inr (t, s\<lparr>index := a + p\<rparr>) \<and> t \<noteq> [])
            else py_slice (data s) a (a + p) = []
                 \<and> read_string s = Inr ([], s\<lparr>index := a + p\<rparr>))"
proof -
  let ?L = "int (length (data s))"
  let ?raw = "py_slice (data s) a (a + p)"
  let ?s2 = "s\<lparr>index := a + p\<rparr>"
  have le: "a \<le> ?L" and s1: "s1 = s\<lparr>index := a\<rparr>"
    and bs: "bs = py_slice (data s) (index s) (index s + 2)"
    using assms(2) by (auto simp: read_def a_def split: if_splits)
  have r2: "read s1 p = Inr (?raw, ?s2)"
    using le assms(4) by (simp add: read_def s1)
  have r1: "read s 2 = Inr (bs, s\<lparr>index := a\<rparr>)" using assms(2) s1 by simp
  have rs: "read_string s = lift (decode_utf8 ?raw) ?s2"
    using r1 r2 assms(3) s1 by (simp add: read_string_def bnd_def lift_def)
  show ?thesis
  proof (cases "0 \<le> a \<and> a + p < 0 \<and> - p < ?L")
    case True
    have w1: "?raw = take (nat (?L + p)) (drop (nat a) (data s))"
      using py_slice_wrap(1) [of a "data s" "a + p"] True le by simp
    have w2: "length ?raw = nat (?L + p)"
      using py_slice_wrap(2) [of a "data s" "a + p"] True le by simp
    have ne: "?raw \<noteq> []" using w2 True by auto
    have dec: "(case utf8_decode ?raw of
                  None \<Rightarrow> read_string s = Inl (UnicodeDecodeError, ?s2)
                | Some t \<Rightarrow> read_string s = Inr (t, ?s2) \<and> t \<noteq> [])"
    proof (cases "utf8_decode ?raw")
      case None
      then show ?thesis using rs by (simp add: lift_def decode_utf8_def)
    next
      case (Some t)
      then have "t \<noteq> []" using ne utf8_decode_Nil by blast
      then show ?thesis using rs Some by (simp add: lift_def decode_utf8_def)
    qed
    show ?thesis using True r2 rs w1 w2 ne dec assms(4) by simp
  next
    case False
    have e: "?raw = []"
      using False assms(4) by (intro py_slice_empty) auto
    have "read_string s = Inr ([], ?s2)"
      using rs e by (simp add: lift_def decode_utf8_def)
    then show ?thesis using False r2 rs e assms(4) by simp
  qed
qed

theorem read_string_negative_prefix_witness:
  "read_string \<lparr>data = [8, 0, 0, 255, 255], index = 3\<rparr>
     = Inr ([], \<lparr>data = [8, 0, 0, 255, 255], index = 4\<rparr>)
   \<and> read_string \<lparr>data = [128, 0], index = 0\<rparr>
     = Inr ([], \<lparr>data = [128, 0], index = - 32766\<rparr>)
   \<and> read_string \<lparr>data = [1, 2, 3, 255, 255, 9], index = - 3\<rparr>
     = Inr ([], \<lparr>data = [1, 2, 3, 255, 255, 9], index = - 2\<rparr>)
   \<and> read_string \<lparr>data = [8, 255, 252, 65, 66, 67], index = 1\<rparr>
     = Inr ([65, 66], \<lparr>data = [8, 255, 252, 65, 66, 67], index = - 1\<rparr>)"
proof -
  let ?s1 = "\<lparr>data = [8, 0, 0, 255, 255] :: byte list, index = 3\<rparr>"
  let ?s2 = "\<lparr>data = [128, 0] :: byte list, index = 0\<rparr>"
  let ?s3 = "\<lparr>data = [1, 2, 3, 255, 255, 9] :: byte list, index = - 3\<rparr>"
  let ?s4 = "\<lparr>data = [8, 255, 252, 65, 66, 67] :: byte list, index = 1\<rparr>"
  have r1: "read ?s1 2 = Inr ([255, 255], ?s1\<lparr>index := 5\<rparr>)" by code_simp
  have u1: "unpack_int 2 [255, 255] = Inr (- 1)" by code_simp
  have r2: "read ?s2 2 = Inr ([128, 0], ?s2\<lparr>index := 2\<rparr>)" by code_simp
  have u2: "unpack_int 2 [128, 0] = Inr (- 32768)" by code_simp
  have r3: "read ?s3 2 = Inr ([255, 255], ?s3\<lparr>index := - 1\<rparr>)" by code_simp
  have r4: "read ?s4 2 = Inr ([255, 252], ?s4\<lparr>index := 3\<rparr>)" by code_simp
  have u4: "unpack_int 2 [255, 252] = Inr (- 4)" by code_simp
  have d4: "utf8_decode [65, 66] = Some [65, 66]" by code_simp
  have w1: "read_string ?s1 = Inr ([], \<lparr>data = [8, 0, 0, 255, 255], index = 4\<rparr>)"
    using read_string_negative_prefix [OF r1 u1] by (simp add: lift_def decode_utf8_def)
  have w2: "read_string ?s2 = Inr ([], \<lparr>data = [128, 0], index = - 32766\<rparr>)"
    using read_string_negative_prefix [OF r2 u2] by (simp add: lift_def decode_utf8_def)
  have w3: "read_string ?s3 = Inr ([], \<lparr>data = [1, 2, 3, 255, 255, 9], index = - 2\<rparr>)"
    using read_string_negative_prefix [OF r3 u1] by (simp add: lift_def decode_utf8_def)
  have w4: "read_string ?s4 = Inr ([65, 66], \<lparr>data = [8, 255, 252, 65, 66, 67], index = - 1\<rparr>)"
    using read_string_negative_prefix [OF r4 u4] d4
    by (simp add: lift_def decode_utf8_def numeral_2_eq_2)
  show ?thesis using w1 w2 w3 w4 by simp
qed

text \<open>
  C10 as stated is false.  When the move leaves the buffer at the front
  (\<open>-p > i + 2\<close>) and the buffer is longer than the move, the end of the slice
  \<open>data[i+2 : i+2+p]\<close> is negative and counts from the end of the buffer, so the slice
  is not empty.  In \<open>08 ff fc 41 42 43\<close>, after the type id, the name prefix is \<open>-4\<close>
  and \<open>read_string\<close> returns \<open>"AB"\<close> with the index at \<open>-1\<close>; with the byte \<open>ff\<close> in
  place of \<open>41\<close> the slice is not UTF-8 and \<open>read_string\<close> raises \<open>UnicodeDecodeError\<close>.
\<close>

theorem read_string_negative_prefix_counterexample:
  "read_string \<lparr>data = [8, 255, 252, 65, 66, 67], index = 1\<rparr>
     = Inr ([65, 66], \<lparr>data = [8, 255, 252, 65, 66, 67], index = - 1\<rparr>)
   \<and> read_string \<lparr>data = [8, 255, 252, 255, 66, 67], index = 1\<rparr>
     = Inl (UnicodeDecodeError, \<lparr>data = [8, 255, 252, 255, 66, 67], index = - 1\<rparr>)"
  by code_simp

section \<open>Further properties\<close>

text \<open>
  X1.  On a stream whose index is within the buffer, \<open>Stream.read(n)\<close> with
  \<open>n \<ge> 0\<close> succeeds exactly when \<open>index + n \<le> len\<close>; it then returns the \<open>n\<close> bytes
  from the index on and advances the index by exactly \<open>n\<close>; otherwise it raises
  \<open>EOFError\<close> and leaves the stream as it was.
\<close>

theorem read_nonneg_size:
  assumes "0 \<le> index s" and "index s \<le> int (length (data s))" and "0 \<le> n"
  shows "(if index s + n \<le> int (length (data s))
          then read s n = Inr (take (nat n) (drop (nat (index s)) (data s)),
                               s\<lparr>index := index s + n\<rparr>)
               \<and> length (take (nat n) (drop (nat (index s)) (data s))) = nat n
          else read s n = Inl (EOFError, s))"
  using assms by (auto simp: read_def py_slice_nonneg)

theorem read_nonneg_size_witness:
  "read \<lparr>data = [1, 2, 3], index = 1\<rparr> 2 = Inr ([2, 3], \<lparr>data = [1, 2, 3], index = 3\<rparr>)
   \<and> read \<lparr>data = [1, 2, 3], index = 2\<rparr> 2 = Inl (EOFError, \<lparr>data = [1, 2, 3], index = 2\<rparr>)"
proof -
  have a: "read \<lparr>data = [1, 2, 3], index = 1\<rparr> 2 = Inr ([2, 3], \<lparr>data = [1, 2, 3], index = 3\<rparr>)"
    using read_nonneg_size [of "\<lparr>data = [1, 2, 3], index = 1\<rparr>" 2] by (simp add: numeral_2_eq_2)
  have b: "read \<lparr>data = [1, 2, 3], index = 2\<rparr> 2 = Inl (EOFError, \<lparr>data = [1, 2, 3], index = 2\<rparr>)"
    using read_nonneg_size [of "\<lparr>data = [1, 2, 3], index = 2\<rparr>" 2] by simp
  show ?thesis using a b by simp
qed

text \<open>
  X2.  Once the 32-bit length prefix of an array has been read and is negative, the
  array readers raise \<open>ValueError\<close> with the stream standing right after the prefix:
  the ByteArray reader and, called without a name (as for the elements of a List), the
  IntArray and LongArray readers.
\<close>

theorem array_negative_length:
  assumes "read_int 4 s = Inr (len, s1)" and "len < 0"
  shows "read_array w s = Inl (ValueError, s1)
         \<and> TagByteArray_read s False = Inl (ValueError, s1)
         \<and> TagIntArray_read s False = Inl (ValueError, s1)
         \<and> TagLongArray_read s False = Inl (ValueError, s1)"
proof -
  have "read_array w s = Inl (ValueError, s1)" for w
    using assms by (simp add: read_array_def bnd_def)
  then show ?thesis
    by (simp add: TagByteArray_read_def TagIntArray_read_def TagLongArray_read_def
        read_name_def bnd_def)
qed

theorem array_negative_length_witness:
  "TagByteArray_read (Stream [255, 255, 255, 255, 1]) False
     = Inl (ValueError, \<lparr>data = [255, 255, 255, 255, 1], index = 4\<rparr>)
   \<and> TagIntArray_read (Stream [255, 255, 255, 255, 1]) False
     = Inl (ValueError, \<lparr>data = [255, 255, 255, 255, 1], index = 4\<rparr>)"
proof -
  have a: "read_int 4 (Stream [255, 255, 255, 255, 1])
             = Inr (- 1, \<lparr>data = [255, 255, 255, 255, 1], index = 4\<rparr>)"
    by code_simp
  show ?thesis using array_negative_length [OF a] by simp
qed

text \<open>
  X3.  When the header of a List (name, registered element type id, length) has been
  read and the length is zero or negative, \<open>TagList.read\<close> returns the empty List and
  reads nothing more, whatever the registered element type.
\<close>

theorem list_nonpositive_length_empty:
  assumes "list_header s (kw k) = Inr ((name, tag_type, len), s1)" and "len \<le> 0"
  shows "tag_read (Suc n) T_List k s = Some (Inr (TagList name [], s1))"
  using assms by simp

theorem list_nonpositive_length_empty_witness:
  "tag_read (Suc 0) T_List None (Stream [0, 0, 1, 255, 255, 255, 255, 7])
     = Some (Inr (TagList (Some []) [], \<lparr>data = [0, 0, 1, 255, 255, 255, 255, 7], index = 7\<rparr>))"
proof -
  have a: "list_header (Stream [0, 0, 1, 255, 255, 255, 255, 7]) (kw None)
             = Inr ((Some [], T_Byte, - 1), \<lparr>data = [0, 0, 1, 255, 255, 255, 255, 7], index = 7\<rparr>)"
    by code_simp
  show ?thesis using list_nonpositive_length_empty [OF a] by simp
qed

text \<open>
  X4.  Where every child decodes.  Let \<open>TagCompound.read\<close> have read the name and
  stand at \<open>s0\<close>.  If the tags \<open>ts\<close>, none an End tag, are decoded one after the other
  from \<open>s0\<close> and the next tag is an End tag, the result (with enough fuel) is the
  Compound holding exactly \<open>ts\<close> in arrival order, with the stream after the End tag; if
  instead the buffer is exhausted right after \<open>ts\<close>, the decode raises \<open>EOFError\<close>;
  and every Compound that is returned holds no End tag, its children are the tags
  decoded in order from \<open>s0\<close>, and an End tag followed them.
\<close>

theorem TagCompound_read_until_End:
  assumes nm: "read_name (kw k) None s = Inr (name, s0)"
  shows "(\<forall>n ts s1 s2.
            decode_seq n s0 ts = Some s1 \<and> create n s1 = Some (Inr (TagEnd, s2))
            \<longrightarrow> tag_read (n + length ts + 2) T_Compound k s
                  = Some (Inr (TagCompound name ts, s2)))
       \<and> (\<forall>n ts s1.
            decode_seq n s0 ts = Some s1 \<and> \<not> alive s1
            \<longrightarrow> tag_read (n + length ts + 3) T_Compound k s = Some (Inl (EOFError, s1)))
       \<and> (\<forall>fuel t s2.
            tag_read fuel T_Compound k s = Some (Inr (t, s2))
            \<longrightarrow> (\<exists>ts s1. t = TagCompound name ts \<and> TagEnd \<notin> set ts
                          \<and> decode_seq fuel s0 ts = Some s1
                          \<and> create fuel s1 = Some (Inr (TagEnd, s2))))"
proof (intro conjI allI impI)
  fix n ts s1 s2
  assume h: "decode_seq n s0 ts = Some s1 \<and> create n s1 = Some (Inr (TagEnd, s2))"
  then have "compound_items (Suc (n + length ts)) s0 ([] @ []) = Some (Inr ([] @ ts, s2))"
    using compound_items_End [of n s0 ts s1 s2 "[]"] by simp
  then have "tag_read (Suc (Suc (n + length ts))) T_Compound k s
             = Some (Inr (TagCompound name ts, s2))"
    using nm by (simp del: compound_items.simps)
  then show "tag_read (n + length ts + 2) T_Compound k s = Some (Inr (TagCompound name ts, s2))"
    by (simp del: tag_read.simps)
next
  fix n ts s1
  assume h: "decode_seq n s0 ts = Some s1 \<and> \<not> alive s1"
  then have "decode_seq n s0 ts = Some s1" by simp
  then have d: "decode_seq (Suc n) s0 ts = Some s1" by (rule decode_seq_mono) simp
  have "\<not> alive s1" using h by simp
  then have e: "create (Suc n) s1 = Some (Inl (EOFError, s1))" by (rule create_exhausted)
  have "compound_items (Suc (Suc n + length ts)) s0 [] = Some (Inl (EOFError, s1))"
    using d e by (rule compound_items_error)
  then have "tag_read (Suc (Suc (Suc n + length ts))) T_Compound k s = Some (Inl (EOFError, s1))"
    using nm by (simp del: compound_items.simps)
  then show "tag_read (n + length ts + 3) T_Compound k s = Some (Inl (EOFError, s1))"
    by (simp del: tag_read.simps add: numeral_3_eq_3)
next
  fix fuel t s2
  assume h: "tag_read fuel T_Compound k s = Some (Inr (t, s2))"
  then obtain m where m: "fuel = Suc m" by (cases fuel) simp_all
  from h m nm obtain kids where c: "compound_items m s0 [] = Some (Inr (kids, s2))"
    and t: "t = TagCompound name kids"
    by (auto split: option.splits sum.splits simp del: compound_items.simps)
  from compound_items_sound [OF c] obtain s1 where d: "decode_seq m s0 kids = Some s1"
    and e: "create m s1 = Some (Inr (TagEnd, s2))" by auto
  have d': "decode_seq fuel s0 kids = Some s1"
    by (rule decode_seq_mono [OF d]) (simp add: m)
  have e': "create fuel s1 = Some (Inr (TagEnd, s2))"
    by (rule create_mono [OF e]) (simp add: m)
  have "TagEnd \<notin> set kids" using d by (rule decode_seq_no_End)
  then show "\<exists>ts s1. t = TagCompound name ts \<and> TagEnd \<notin> set ts
                \<and> decode_seq fuel s0 ts = Some s1
                \<and> create fuel s1 = Some (Inr (TagEnd, s2))"
    using t d' e' by blast
qed

theorem TagCompound_read_until_End_witness:
  "tag_read 5 T_Compound None (Stream [0, 0, 1, 0, 1, 97, 5, 0])
     = Some (Inr (TagCompound (Some []) [TagByte (Some [97]) 5],
                  \<lparr>data = [0, 0, 1, 0, 1, 97, 5, 0], index = 8\<rparr>))
   \<and> tag_read 6 T_Compound None (Stream [0, 0, 1, 0, 1, 97, 5])
     = Some (Inl (EOFError, \<lparr>data = [0, 0, 1, 0, 1, 97, 5], index = 7\<rparr>))
   \<and> (\<exists>ts s1. TagCompound (Some []) [TagByte (Some [97]) 5] = TagCompound (Some []) ts
         \<and> TagEnd \<notin> set ts
         \<and> decode_seq 5 \<lparr>data = [0, 0, 1, 0, 1, 97, 5, 0], index = 2\<rparr> ts = Some s1
         \<and> create 5 s1
            = Some (Inr (TagEnd, \<lparr>data = [0, 0, 1, 0, 1, 97, 5, 0], index = 8\<rparr>)))"
proof -
  let ?d = "[0, 0, 1, 0, 1, 97, 5, 0] :: byte list"
  let ?e = "[0, 0, 1, 0, 1, 97, 5] :: byte list"
  have n1: "read_name (kw None) None (Stream ?d) = Inr (Some [], \<lparr>data = ?d, index = 2\<rparr>)"
    by code_simp
  have n2: "read_name (kw None) None (Stream ?e) = Inr (Some [], \<lparr>data = ?e, index = 2\<rparr>)"
    by code_simp
  have d1: "decode_seq 2 \<lparr>data = ?d, index = 2\<rparr> [TagByte (Some [97]) 5]
              = Some \<lparr>data = ?d, index = 7\<rparr>"
    by code_simp
  have e1: "create 2 \<lparr>data = ?d, index = 7\<rparr> = Some (Inr (TagEnd, \<lparr>data = ?d, index = 8\<rparr>))"
    by code_simp
  have d2: "decode_seq 2 \<lparr>data = ?e, index = 2\<rparr> [TagByte (Some [97]) 5]
              = Some \<lparr>data = ?e, index = 7\<rparr>"
    by code_simp
  have a2: "\<not> alive \<lparr>data = ?e, index = 7\<rparr>"
    by (simp add: alive_def)
  have r1: "tag_read (2 + length [TagByte (Some [97]) 5] + 2) T_Compound None (Stream ?d)
              = Some (Inr (TagCompound (Some []) [TagByte (Some [97]) 5], \<lparr>data = ?d, index = 8\<rparr>))"
    using TagCompound_read_until_End [OF n1] d1 e1 by blast
  have r2: "tag_read (2 + length [TagByte (Some [97]) 5] + 3) T_Compound None (Stream ?e)
              = Some (Inl (EOFError, \<lparr>data = ?e, index = 7\<rparr>))"
    using TagCompound_read_until_End [OF n2] d2 a2 by blast
  have f1: "tag_read 5 T_Compound None (Stream ?d)
              = Some (Inr (TagCompound (Some []) [TagByte (Some [97]) 5], \<lparr>data = ?d, index = 8\<rparr>))"
    using r1 by (simp del: tag_read.simps)
  have f2: "tag_read 6 T_Compound None (Stream ?e)
              = Some (Inl (EOFError, \<lparr>data = ?e, index = 7\<rparr>))"
    using r2 by (simp del: tag_read.simps)
  have r3: "\<exists>ts s1. TagCompound (Some []) [TagByte (Some [97]) 5] = TagCompound (Some []) ts
         \<and> TagEnd \<notin> set ts
         \<and> decode_seq 5 \<lparr>data = ?d, index = 2\<rparr> ts = Some s1
         \<and> create 5 s1 = Some (Inr (TagEnd, \<lparr>data = ?d, index = 8\<rparr>))"
    using TagCompound_read_until_End [OF n1] f1 by blast
  show ?thesis using f1 f2 r3 by blast
qed

end
